theory Spec2Isabelle
  imports Complex_Main
begin

section \<open>Order watcher: \<open>_poll_order_updates\<close> of app/main.py\<close>

text \<open>
  One entry of the \<open>sms\<close> list of an order-check response. Each field is what
  \<open>s.get(...)\<close> returns: \<open>None\<close> when the key is missing or null. Provider ids are
  integers (\<open>seen_sms_ids: Set[int]\<close>), codes, texts and dates are strings.
\<close>

record sms_entry =
  sms_id :: "int option"
  sms_code :: "string option"
  sms_text :: "string option"
  sms_date :: "string option"

text \<open>The decoded body of \<open>GET /v1/user/check/{id}\<close>, as far as the watcher reads it.\<close>

record check_response =
  resp_status :: "string option"
  resp_sms :: "sms_entry list option"

text \<open>
  The outcome of one \<open>order_check\<close> call inside the loop:
  \<^item> \<open>PollError\<close>: it raised (any exception, caught at line 150);
  \<^item> \<open>PollOk\<close>: it returned a JSON object whose \<open>sms\<close> entries are objects;
  \<^item> \<open>PollMalformed\<close>: it returned a value on which lines 155-168 raise: a value
    that is not an object (\<open>_request\<close> returns the raw text of a body that does not
    decode, fivesim.py 131-134, and \<open>data.get\<close> then raises \<open>AttributeError\<close>), or
    an object whose \<open>sms\<close> entries are not objects. These lines are outside the
    \<open>try\<close> and before both \<open>send_message\<close> calls, so the exception ends the task
    with nothing sent in that iteration.
  \<open>bot.send_message\<close> itself is taken to return.
\<close>

datatype poll = PollError | PollOk check_response | PollMalformed

text \<open>The three locals of \<open>_poll_order_updates\<close> that live across iterations.\<close>

record watcher_state =
  backoff :: "nat list"
  seen_sms_ids :: "int set"
  last_status :: "string option"

text \<open>
  What one iteration of the loop did, in the order it did it: after a failed poll a
  warning is logged and the task sleeps; after a successful poll the listed messages are
  sent with \<open>bot.send_message\<close> (in list order) and then the task either sleeps for the
  given delay or, with \<open>None\<close>, leaves the loop through \<open>break\<close>; on a malformed
  response the task ends with an uncaught exception.
\<close>

datatype iteration = Failed nat | Processed "string list" "nat option" | Crashed

text \<open>\<open>str(x)\<close> for a value that is a string or \<open>None\<close>.\<close>

definition py_str :: "string option \<Rightarrow> string" where
  "py_str v = (case v of None \<Rightarrow> ''None'' | Some s \<Rightarrow> s)"

text \<open>\<open>_format_text(text, limit=4000)\<close>: \<open>text[:limit]\<close>.\<close>

definition format_text :: "string \<Rightarrow> string" where
  "format_text t = take 4000 t"

text \<open>\<open>sep.join(xs)\<close>.\<close>

fun join :: "string \<Rightarrow> string list \<Rightarrow> string" where
  "join sep [] = []"
| "join sep [x] = x"
| "join sep (x # y # ys) = x @ sep @ join sep (y # ys)"

text \<open>
  Lines 159-164: the dedup key of an entry. \<open>py_hash\<close> stands for Python's built-in
  \<open>hash\<close> on the pair \<open>(text, date)\<close>; nothing is assumed about it.
\<close>

definition sms_key :: "(string option \<times> string option \<Rightarrow> int) \<Rightarrow> sms_entry \<Rightarrow> int" where
  "sms_key py_hash s =
     (case sms_id s of
        Some i \<Rightarrow> i
      | None \<Rightarrow> py_hash (sms_text s, sms_date s))"

text \<open>Lines 167-168: \<open>if code: new_codes.append(str(code))\<close>, as the list appended.\<close>

definition code_to_append :: "string option \<Rightarrow> string list" where
  "code_to_append c =
     (case c of
        None \<Rightarrow> []
      | Some v \<Rightarrow> if v \<noteq> [] then [v] else [])"

text \<open>Lines 158-168: the \<open>for s in sms_list\<close> loop over \<open>seen_sms_ids\<close> and \<open>new_codes\<close>.\<close>

fun scan_sms ::
  "(string option \<times> string option \<Rightarrow> int) \<Rightarrow> sms_entry list \<Rightarrow> int set \<Rightarrow> string list
    \<Rightarrow> int set \<times> string list" where
  "scan_sms py_hash [] seen new_codes = (seen, new_codes)"
| "scan_sms py_hash (s # ss) seen new_codes =
     (let sid = sms_key py_hash s in
      if sid \<notin> seen
      then scan_sms py_hash ss (insert sid seen) (new_codes @ code_to_append (sms_code s))
      else scan_sms py_hash ss seen new_codes)"

definition terminal_statuses :: "string set" where
  "terminal_statuses = {''FINISHED'', ''CANCELED'', ''TIMEOUT'', ''BANNED''}"

text \<open>\<open>data.get("sms") or []\<close>.\<close>

definition sms_list_of :: "check_response \<Rightarrow> sms_entry list" where
  "sms_list_of d = (case resp_sms d of None \<Rightarrow> [] | Some l \<Rightarrow> l)"

text \<open>
  Lines 155-175: what a successful poll sends. The messages are in the order of the two
  \<open>send_message\<close> calls: the new codes first (line 171), then the status (line 175).
\<close>

definition notifications ::
  "(string option \<times> string option \<Rightarrow> int) \<Rightarrow> watcher_state \<Rightarrow> check_response \<Rightarrow> string list" where
  "notifications py_hash w d =
     (let status = py_str (resp_status d);
          new_codes = snd (scan_sms py_hash (sms_list_of d) (seen_sms_ids w) [])
      in (if new_codes \<noteq> []
          then [format_text (''New code(s) received: '' @ join '', '' new_codes)]
          else [])
         @ (if Some status \<noteq> last_status w
            then [format_text (''Order status: '' @ status)]
            else []))"

text \<open>Lines 155-175: the locals after the two notification steps.\<close>

definition after_poll ::
  "(string option \<times> string option \<Rightarrow> int) \<Rightarrow> watcher_state \<Rightarrow> check_response \<Rightarrow> watcher_state" where
  "after_poll py_hash w d =
     (let status = py_str (resp_status d) in
      w\<lparr>seen_sms_ids := fst (scan_sms py_hash (sms_list_of d) (seen_sms_ids w) []),
        last_status := (if Some status \<noteq> last_status w then Some status else last_status w)\<rparr>)"

text \<open>Line 181: \<open>delay = backoff[0] if backoff else 30\<close>.\<close>

definition next_delay :: "watcher_state \<Rightarrow> nat" where
  "next_delay w = (case backoff w of [] \<Rightarrow> 30 | b # _ \<Rightarrow> b)"

text \<open>Lines 183-184: \<open>if len(backoff) > 1: backoff.pop(0)\<close>.\<close>

definition after_sleep :: "watcher_state \<Rightarrow> watcher_state" where
  "after_sleep w = w\<lparr>backoff := (if length (backoff w) > 1 then tl (backoff w) else backoff w)\<rparr>"

text \<open>Line 177: the test that leaves the loop.\<close>

definition is_terminal :: "check_response \<Rightarrow> bool" where
  "is_terminal d = (py_str (resp_status d) \<in> terminal_statuses)"

text \<open>
  Lines 147-184: the \<open>while True\<close> loop, run against the outcomes of its successive
  \<open>order_check\<close> calls. Every iteration makes exactly one call, so the loop is a
  recursion over the outcomes, and the log has one element per call made. A log that ends
  in \<open>Processed _ None\<close> is a loop that has exited through \<open>break\<close>, one that ends
  in \<open>Crashed\<close> is a task that an exception has ended; otherwise the outcomes ran out
  while the loop was still polling.
\<close>

fun watcher_loop ::
  "(string option \<times> string option \<Rightarrow> int) \<Rightarrow> watcher_state \<Rightarrow> poll list \<Rightarrow> iteration list" where
  "watcher_loop py_hash w [] = []"
| "watcher_loop py_hash w (PollError # ps) = Failed 5 # watcher_loop py_hash w ps"
| "watcher_loop py_hash w (PollOk d # ps) =
     (let msgs = notifications py_hash w d;
          w1 = after_poll py_hash w d
      in if is_terminal d
         then [Processed msgs None]
         else Processed msgs (Some (next_delay w1)) # watcher_loop py_hash (after_sleep w1) ps)"
| "watcher_loop py_hash w (PollMalformed # ps) = [Crashed]"

text \<open>Lines 143-145: the locals before the first iteration.\<close>

definition initial_state :: watcher_state where
  "initial_state = \<lparr>backoff = [2, 4, 8, 15, 30], seen_sms_ids = {}, last_status = None\<rparr>"

definition poll_order_updates ::
  "(string option \<times> string option \<Rightarrow> int) \<Rightarrow> poll list \<Rightarrow> iteration list" where
  "poll_order_updates py_hash ps = watcher_loop py_hash initial_state ps"

text \<open>The messages handed to \<open>bot.send_message\<close> over a run, in order.\<close>

fun sent :: "iteration list \<Rightarrow> string list" where
  "sent [] = []"
| "sent (Failed d # its) = sent its"
| "sent (Processed msgs d # its) = msgs @ sent its"
| "sent (Crashed # its) = sent its"

text \<open>Whether the loop has left through \<open>break\<close>.\<close>

fun stopped :: "iteration list \<Rightarrow> bool" where
  "stopped [] = False"
| "stopped [Processed msgs None] = True"
| "stopped [it] = False"
| "stopped (it # its) = stopped its"

text \<open>The delays slept after successful polls (line 182), in order.\<close>

fun backoff_delays :: "iteration list \<Rightarrow> nat list" where
  "backoff_delays [] = []"
| "backoff_delays (Failed d # its) = backoff_delays its"
| "backoff_delays (Processed msgs None # its) = backoff_delays its"
| "backoff_delays (Processed msgs (Some d) # its) = d # backoff_delays its"
| "backoff_delays (Crashed # its) = backoff_delays its"

text \<open>Whether the task has been ended by an exception.\<close>

fun crashed :: "iteration list \<Rightarrow> bool" where
  "crashed [] = False"
| "crashed (Crashed # its) = True"
| "crashed (it # its) = crashed its"

text \<open>
  The two kinds of message are told apart by how they start: line 171 builds the first,
  line 175 the second.
\<close>

definition is_codes_message :: "string \<Rightarrow> bool" where
  "is_codes_message m = (take 22 m = ''New code(s) received: '')"

definition is_status_message :: "string \<Rightarrow> bool" where
  "is_status_message m = (take 14 m = ''Order status: '')"

definition codes_message :: "string list \<Rightarrow> string" where
  "codes_message cs = format_text (''New code(s) received: '' @ join '', '' cs)"

definition status_message :: "string \<Rightarrow> string" where
  "status_message st = format_text (''Order status: '' @ st)"

subsection \<open>Bookkeeping for stating the watcher's properties\<close>

text \<open>
  The same scan as \<open>scan_sms\<close>, keeping with every appended code the key under which
  it was appended.
\<close>

fun scan_keys ::
  "(string option \<times> string option \<Rightarrow> int) \<Rightarrow> sms_entry list \<Rightarrow> int set \<Rightarrow> (int \<times> string) list" where
  "scan_keys py_hash [] seen = []"
| "scan_keys py_hash (s # ss) seen =
     (let sid = sms_key py_hash s in
      if sid \<notin> seen
      then map (Pair sid) (code_to_append (sms_code s)) @ scan_keys py_hash ss (insert sid seen)
      else scan_keys py_hash ss seen)"

text \<open>
  The batches of (key, code) pairs notified over a run: one batch for each iteration whose
  \<open>new_codes\<close> was not empty.
\<close>

fun notified ::
  "(string option \<times> string option \<Rightarrow> int) \<Rightarrow> watcher_state \<Rightarrow> poll list
    \<Rightarrow> (int \<times> string) list list" where
  "notified py_hash w [] = []"
| "notified py_hash w (PollError # ps) = notified py_hash w ps"
| "notified py_hash w (PollOk d # ps) =
     (let batch = scan_keys py_hash (sms_list_of d) (seen_sms_ids w) in
      (if batch \<noteq> [] then [batch] else [])
      @ (if is_terminal d then []
         else notified py_hash (after_sleep (after_poll py_hash w d)) ps))"
| "notified py_hash w (PollMalformed # ps) = []"

text \<open>
  The entries the loop reads over a run: those of every successful poll up to and
  including the first one with a terminal status, or up to the first malformed response.
\<close>

fun observed_sms :: "poll list \<Rightarrow> sms_entry list" where
  "observed_sms [] = []"
| "observed_sms (PollError # ps) = observed_sms ps"
| "observed_sms (PollOk d # ps) =
     sms_list_of d @ (if is_terminal d then [] else observed_sms ps)"
| "observed_sms (PollMalformed # ps) = []"


text \<open>A poll that returns a terminal status.\<close>

fun terminal_poll :: "poll \<Rightarrow> bool" where
  "terminal_poll PollError = False"
| "terminal_poll (PollOk d) = is_terminal d"
| "terminal_poll PollMalformed = False"

text \<open>A poll whose response the loop processes to the end of lines 155-175.\<close>

fun successful_poll :: "poll \<Rightarrow> bool" where
  "successful_poll PollError = False"
| "successful_poll (PollOk d) = True"
| "successful_poll PollMalformed = False"

text \<open>A poll on whose response lines 155-168 raise.\<close>

fun malformed_poll :: "poll \<Rightarrow> bool" where
  "malformed_poll PollError = False"
| "malformed_poll (PollOk d) = False"
| "malformed_poll PollMalformed = True"

text \<open>
  A poll after which the loop makes no further poll: it returns a terminal status, or
  its response is malformed.
\<close>

definition last_poll :: "poll \<Rightarrow> bool" where
  "last_poll p = (terminal_poll p \<or> malformed_poll p)"

text \<open>
  The state of the locals after a run that has met neither a terminal status nor a
  malformed response.
\<close>

fun state_after ::
  "(string option \<times> string option \<Rightarrow> int) \<Rightarrow> watcher_state \<Rightarrow> poll list \<Rightarrow> watcher_state" where
  "state_after py_hash w [] = w"
| "state_after py_hash w (PollError # ps) = state_after py_hash w ps"
| "state_after py_hash w (PollOk d # ps) =
     (if is_terminal d then after_poll py_hash w d
      else state_after py_hash (after_sleep (after_poll py_hash w d)) ps)"
| "state_after py_hash w (PollMalformed # ps) = w"

section \<open>Provider client: \<open>FiveSimClient\<close> of app/services/fivesim.py\<close>

subsection \<open>\<open>_request\<close>: the retry loop\<close>

text \<open>
  What one call of \<open>self._client.request\<close> does: it raises an \<open>httpx.HTTPError\<close>, or
  it returns a response with a status code and a body. The body stands for what
  \<open>resp.json()\<close> gives, or \<open>resp.text\<close> when the body does not decode.
\<close>

datatype ('e, 'b) attempt_result = TransportFailure 'e | Response int 'b

text \<open>
  What \<open>_request\<close> raises: the typed error with its status code and payload (its message
  is built from the method, the path and the same status code, and is left out), the
  transport's error, the assertion of line 147, or the \<open>OverflowError\<close> of line 145.
\<close>

datatype ('e, 'b) request_error = FiveSimError int 'b | HTTPError 'e | AssertionError | OverflowError

record ('e, 'b) request_outcome =
  outcome :: "('e, 'b) request_error + 'b"
  attempts_made :: nat
  sleeps :: "real list"

text \<open>Line 57: \<open>self._retries = max(0, retries)\<close>; line 51: the default.\<close>

definition client_retries :: "int \<Rightarrow> nat" where
  "client_retries retries = nat (max 0 retries)"

definition default_retries :: int where
  "default_retries = 2"

text \<open>
  Lines 111-141: one pass through the \<open>try\<close> block and its handlers: the body is
  returned, an exception leaves \<open>_request\<close>, or an exception is kept in \<open>last_exc\<close>
  and the loop goes on.
\<close>

datatype ('e, 'b) attempt_step =
  Return 'b | Raise "('e, 'b) request_error" | Retry "('e, 'b) request_error"

definition try_attempt :: "bool \<Rightarrow> ('e, 'b) attempt_result \<Rightarrow> ('e, 'b) attempt_step" where
  "try_attempt require_ok res =
     (case res of
        TransportFailure e \<Rightarrow> Retry (HTTPError e)
      | Response status_code body \<Rightarrow>
          if require_ok \<and> status_code \<ge> 400
          then if status_code \<noteq> 0 \<and> 400 \<le> status_code \<and> status_code < 500
                  \<and> status_code \<noteq> 429
               then Raise (FiveSimError status_code body)
               else Retry (FiveSimError status_code body)
          else Return body)"

text \<open>
  Lines 144-145: the sleeps after a failed attempt: none after the last attempt, else
  \<open>min(2.0, 0.5 * (2 ** attempt))\<close>. The product converts the integer \<open>2 ** attempt\<close>
  to a float, which raises \<open>OverflowError\<close> from \<open>2 ** 1024\<close> on (the result
  \<open>None\<close>); below that the product is a power of two and exact.
\<close>

definition retry_sleep :: "nat \<Rightarrow> nat \<Rightarrow> real list option" where
  "retry_sleep retries attempt =
     (if attempt < retries
      then (if attempt \<ge> 1024 then None else Some [min 2 (0.5 * 2 ^ attempt)])
      else Some [])"

text \<open>
  Lines 110-148: the \<open>for attempt in range(self._retries + 1)\<close> loop over the attempt
  numbers still to run, with \<open>last_exc\<close>, the sleeps taken so far and the number of
  calls made so far. \<open>transport k\<close> is what the call of attempt \<open>k\<close> does. The sleep
  is outside the \<open>try\<close>, so its \<open>OverflowError\<close> leaves \<open>_request\<close>.
\<close>

fun request_loop ::
  "bool \<Rightarrow> nat \<Rightarrow> (nat \<Rightarrow> ('e, 'b) attempt_result) \<Rightarrow> nat list
    \<Rightarrow> ('e, 'b) request_error option \<Rightarrow> real list \<Rightarrow> nat \<Rightarrow> ('e, 'b) request_outcome" where
  "request_loop require_ok retries transport [] last_exc slept calls =
     \<lparr>outcome = Inl (case last_exc of None \<Rightarrow> AssertionError | Some e \<Rightarrow> e),
      attempts_made = calls, sleeps = slept\<rparr>"
| "request_loop require_ok retries transport (attempt # rest) last_exc slept calls =
     (case try_attempt require_ok (transport attempt) of
        Return body \<Rightarrow> \<lparr>outcome = Inr body, attempts_made = Suc calls, sleeps = slept\<rparr>
      | Raise e \<Rightarrow> \<lparr>outcome = Inl e, attempts_made = Suc calls, sleeps = slept\<rparr>
      | Retry e \<Rightarrow>
          (case retry_sleep retries attempt of
             None \<Rightarrow> \<lparr>outcome = Inl OverflowError, attempts_made = Suc calls, sleeps = slept\<rparr>
           | Some d \<Rightarrow>
               request_loop require_ok retries transport rest (Some e) (slept @ d) (Suc calls)))"

text \<open>
  \<open>_request\<close> on a client built with \<open>retries\<close>. The method, path, parameters and
  headers go to the transport unchanged and do not enter the loop's decisions.
\<close>

definition request ::
  "int \<Rightarrow> bool \<Rightarrow> (nat \<Rightarrow> ('e, 'b) attempt_result) \<Rightarrow> ('e, 'b) request_outcome" where
  "request retries require_ok transport =
     request_loop require_ok (client_retries retries) transport
       [0 ..< client_retries retries + 1] None [] 0"

text \<open>
  The results after which the loop goes on to its next attempt when \<open>require_ok\<close> holds
  (every public method of the client calls \<open>_request\<close> with \<open>require_ok=True\<close>): a
  transport error, or a status that raises the typed error and passes the test of
  line 137, that is 429 or 500 and above.
\<close>

fun retried :: "('e, 'b) attempt_result \<Rightarrow> bool" where
  "retried (TransportFailure e) = True"
| "retried (Response status_code body) = (status_code = 429 \<or> status_code \<ge> 500)"

text \<open>The error an attempt leaves in \<open>last_exc\<close>.\<close>

fun error_of :: "('e, 'b) attempt_result \<Rightarrow> ('e, 'b) request_error" where
  "error_of (TransportFailure e) = HTTPError e"
| "error_of (Response status_code body) = FiveSimError status_code body"

subsection \<open>\<open>buy_activation\<close> and its caller \<open>buy_maxprice\<close> of app/main.py\<close>

text \<open>\<open>str(n)\<close> for an integer.\<close>

definition digit :: "nat \<Rightarrow> char" where
  "digit n = ''0123456789'' ! n"

function str_nat :: "nat \<Rightarrow> string" where
  "str_nat n = (if n < 10 then [digit n] else str_nat (n div 10) @ [digit (n mod 10)])"
  by pat_completeness auto
termination
  by (relation "measure id") auto

declare str_nat.simps [simp del]

definition str_int :: "int \<Rightarrow> string" where
  "str_int i = (if i < 0 then CHR ''-'' # str_nat (nat (- i)) else str_nat (nat i))"

text \<open>
  The keyword arguments of \<open>buy_activation\<close>. The three path segments are what the
  caller passes, which \<open>buy_maxprice\<close> reads with \<open>data.get\<close>: a string or \<open>None\<close>.
\<close>

record 'p activation_args =
  ba_country :: "string option"
  ba_operator :: "string option"
  ba_product :: "string option"
  ba_forwarding :: "int option"
  ba_number :: "string option"
  ba_reuse :: "int option"
  ba_voice :: "int option"
  ba_ref :: "string option"
  ba_max_price :: "'p option"

text \<open>What is handed to \<open>_request\<close>: the query parameters in insertion order.\<close>

record http_request =
  req_method :: string
  req_path :: string
  req_params :: "(string \<times> string) list"

text \<open>
  Lines 185-213 of fivesim.py. \<open>str_price\<close> stands for \<open>str\<close> on the price, a
  float or an integer.
\<close>

definition buy_activation :: "('p \<Rightarrow> string) \<Rightarrow> 'p activation_args \<Rightarrow> http_request" where
  "buy_activation str_price a =
     \<lparr>req_method = ''GET'',
      req_path = ''/v1/user/buy/activation/'' @ py_str (ba_country a) @ ''/''
                   @ py_str (ba_operator a) @ ''/'' @ py_str (ba_product a),
      req_params =
        (case ba_forwarding a of None \<Rightarrow> [] | Some f \<Rightarrow> [(''forwarding'', str_int f)])
        @ (case ba_number a of None \<Rightarrow> [] | Some n \<Rightarrow> [(''number'', n)])
        @ (case ba_reuse a of None \<Rightarrow> [] | Some r \<Rightarrow> [(''reuse'', str_int r)])
        @ (case ba_voice a of None \<Rightarrow> [] | Some v \<Rightarrow> [(''voice'', str_int v)])
        @ (case ba_ref a of None \<Rightarrow> [] | Some r \<Rightarrow> [(''ref'', r)])
        @ (case ba_max_price a of None \<Rightarrow> [] | Some p \<Rightarrow> [(''maxPrice'', str_price p)])\<rparr>"

text \<open>
  Lines 404-428 of main.py, up to the request the handler makes. \<open>txt\<close> is the message
  text after \<open>.strip().lower()\<close>; \<open>parse_float\<close> stands for \<open>float\<close>, with \<open>None\<close> where
  it raises; the last three arguments are the fields read from the conversation state.
\<close>

datatype handler_step = InvalidNumber | Buy http_request

definition buy_maxprice ::
  "(string \<Rightarrow> 'p option) \<Rightarrow> ('p \<Rightarrow> string) \<Rightarrow> string
    \<Rightarrow> string option \<Rightarrow> string option \<Rightarrow> string option \<Rightarrow> handler_step" where
  "buy_maxprice parse_float str_price txt product country operator =
     (let call = (\<lambda>max_price.
            Buy (buy_activation str_price
              \<lparr>ba_country = country, ba_operator = operator, ba_product = product,
               ba_forwarding = None, ba_number = None, ba_reuse = None, ba_voice = None,
               ba_ref = None,
               ba_max_price = (if operator = Some ''any'' then max_price else None)\<rparr>))
      in if txt \<notin> {[], ''skip'', ''none''}
         then (case parse_float txt of
                 None \<Rightarrow> InvalidNumber
               | Some p \<Rightarrow> call (Some p))
         else call None)"

section \<open>TTL cache: \<open>TTLCache\<close> of app/main.py\<close>

text \<open>
  \<open>self._store\<close>: a dictionary from keys to pairs of an expiry and a value. A value is
  any Python object: \<open>None\<close> is Python's \<open>None\<close>, \<open>Some v\<close> any other object. Times are
  what \<open>time.time()\<close> returns; only their \<open>+\<close> and \<open><\<close> are used, and nothing is
  assumed about them.
\<close>

type_synonym ('t, 'v) ttl_store = "string \<rightharpoonup> 't \<times> 'v option"

text \<open>
  Lines 57-66, with the clock's reading as an argument: the value returned and the
  store afterwards. A stored pair is never falsy, so \<open>not item\<close> is the missing key.
\<close>

definition TTLCache_get ::
  "'t::ord \<Rightarrow> ('t, 'v) ttl_store \<Rightarrow> string \<Rightarrow> 'v option \<times> ('t, 'v) ttl_store" where
  "TTLCache_get now store key =
     (case store key of
        None \<Rightarrow> (None, store)
      | Some (expiry, v) \<Rightarrow>
          if expiry < now then (None, store(key := None)) else (v, store))"

text \<open>Lines 68-69.\<close>

definition TTLCache_set ::
  "'t::plus \<Rightarrow> ('t, 'v) ttl_store \<Rightarrow> string \<Rightarrow> 'v option \<Rightarrow> 't \<Rightarrow> ('t, 'v) ttl_store" where
  "TTLCache_set now store key v ttl = store(key \<mapsto> (now + ttl, v))"

text \<open>
  Lines 271-285 of \<open>on_prices\<close> (and 304-318 of \<open>on_countries\<close>): the cached read.
  \<open>fetch\<close> is what the client call gives if it is made: an exception or the data.
  The clock is read once in \<open>get\<close> and once more in \<open>set\<close>.
\<close>

record ('t, 'v) cached_read =
  data_used :: "'v option option"
  fetch_issued :: bool
  store_after :: "('t, 'v) ttl_store"

definition on_prices_read ::
  "'t::{ord,plus} \<Rightarrow> 't \<Rightarrow> 't \<Rightarrow> string \<Rightarrow> 'x + 'v option \<Rightarrow> ('t, 'v) ttl_store
    \<Rightarrow> ('t, 'v) cached_read" where
  "on_prices_read now_get now_set ttl cache_key fetch store =
     (case TTLCache_get now_get store cache_key of
        (None, store1) \<Rightarrow>
          (case fetch of
             Inl e \<Rightarrow> \<lparr>data_used = None, fetch_issued = True, store_after = store1\<rparr>
           | Inr fetched \<Rightarrow>
               \<lparr>data_used = Some fetched, fetch_issued = True,
                store_after = TTLCache_set now_set store1 cache_key fetched ttl\<rparr>)
      | (Some cached, store1) \<Rightarrow>
          \<lparr>data_used = Some (Some cached), fetch_issued = False, store_after = store1\<rparr>)"


section \<open>Auxiliary definitions for the statements\<close>

text \<open>
  The delay of the \<open>k\<close>-th sleep (counted from 0) that lines 181-184 take from a
  schedule \<open>b\<close>: its entries in order, then its last entry again and again; 30 when
  the schedule is empty.
\<close>

definition nth_delay :: "nat list \<Rightarrow> nat \<Rightarrow> nat" where
  "nth_delay b k = (if b = [] then 30 else b ! min k (length b - 1))"

text \<open>A hash function for the concrete runs: every pair hashes to 0.\<close>

definition example_hash :: "string option \<times> string option \<Rightarrow> int" where
  "example_hash p = 0"

text \<open>
  The poll sequence of the scenario of section 8 of the specification, with the SMS list
  of its last poll as a parameter.
\<close>

definition sms_1 :: sms_entry where
  "sms_1 = \<lparr>sms_id = Some 1, sms_code = Some ''123'', sms_text = None, sms_date = None\<rparr>"

definition sms_2 :: sms_entry where
  "sms_2 = \<lparr>sms_id = Some 2, sms_code = Some ''456'', sms_text = None, sms_date = None\<rparr>"

definition scenario_polls :: "sms_entry list \<Rightarrow> poll list" where
  "scenario_polls final_sms =
     [PollOk \<lparr>resp_status = Some ''PENDING'', resp_sms = Some []\<rparr>,
      PollOk \<lparr>resp_status = Some ''RECEIVED'', resp_sms = Some [sms_1]\<rparr>,
      PollOk \<lparr>resp_status = Some ''RECEIVED'', resp_sms = Some [sms_1, sms_2]\<rparr>,
      PollOk \<lparr>resp_status = Some ''FINISHED'', resp_sms = Some final_sms\<rparr>]"

text \<open>
  Two polls in which the entry with id 7 first arrives without a code and then with one.
\<close>

definition codeless_7 :: sms_entry where
  "codeless_7 = \<lparr>sms_id = Some 7, sms_code = None, sms_text = Some ''hello'', sms_date = None\<rparr>"

definition coded_7 :: sms_entry where
  "coded_7 = \<lparr>sms_id = Some 7, sms_code = Some ''999'', sms_text = Some ''hello'', sms_date = None\<rparr>"

definition late_code_polls :: "poll list" where
  "late_code_polls =
     [PollOk \<lparr>resp_status = Some ''PENDING'', resp_sms = Some [codeless_7]\<rparr>,
      PollOk \<lparr>resp_status = Some ''RECEIVED'', resp_sms = Some [coded_7]\<rparr>]"

text \<open>
  A run of ten polls: seven successful ones that do not end the loop, with a failed poll
  among them, then a terminal status, then one more response that is never asked for.
\<close>

definition long_run_polls :: "poll list" where
  "long_run_polls =
     [PollOk \<lparr>resp_status = Some ''PENDING'', resp_sms = None\<rparr>,
      PollError,
      PollOk \<lparr>resp_status = Some ''PENDING'', resp_sms = None\<rparr>,
      PollOk \<lparr>resp_status = Some ''PENDING'', resp_sms = None\<rparr>,
      PollOk \<lparr>resp_status = Some ''RECEIVED'', resp_sms = None\<rparr>,
      PollOk \<lparr>resp_status = Some ''RECEIVED'', resp_sms = None\<rparr>,
      PollOk \<lparr>resp_status = Some ''RECEIVED'', resp_sms = None\<rparr>,
      PollOk \<lparr>resp_status = Some ''RECEIVED'', resp_sms = None\<rparr>,
      PollOk \<lparr>resp_status = Some ''TIMEOUT'', resp_sms = None\<rparr>,
      PollOk \<lparr>resp_status = Some ''RECEIVED'', resp_sms = None\<rparr>]"

text \<open>
  Three polls: a non-terminal status, a response that is not a JSON object, a terminal
  status.
\<close>

definition crash_polls :: "poll list" where
  "crash_polls =
     [PollOk \<lparr>resp_status = Some ''PENDING'', resp_sms = Some []\<rparr>,
      PollMalformed,
      PollOk \<lparr>resp_status = Some ''FINISHED'', resp_sms = Some []\<rparr>]"

section \<open>Properties of the order watcher\<close>


lemma is_codes_message_codes [simp]: "is_codes_message (codes_message cs)"
  by (simp add: is_codes_message_def codes_message_def format_text_def)

lemma is_codes_message_status [simp]: "\<not> is_codes_message (status_message st)"
  by (simp add: is_codes_message_def status_message_def format_text_def)

lemma is_status_message_status [simp]: "is_status_message (status_message st)"
  by (simp add: is_status_message_def status_message_def format_text_def)

lemma is_status_message_codes [simp]: "\<not> is_status_message (codes_message cs)"
  by (simp add: is_status_message_def codes_message_def format_text_def)

lemma scan_sms_keys:
  "scan_sms h ss seen acc = (seen \<union> sms_key h ` set ss, acc @ map snd (scan_keys h ss seen))"
  by (induction ss arbitrary: seen acc) (auto simp: Let_def comp_def)

lemma scan_keys_fresh: "(k, c) \<in> set (scan_keys h ss seen) \<Longrightarrow> k \<notin> seen"
  by (induction ss arbitrary: seen) (auto simp: Let_def split: if_splits)

lemma scan_keys_distinct: "distinct (map fst (scan_keys h ss seen))"
proof (induction ss arbitrary: seen)
  case Nil
  show ?case by simp
next
  case (Cons s ss)
  have one: "distinct (map fst (map (Pair k) (code_to_append c)))" for k :: int and c
    by (simp add: code_to_append_def split: option.splits)
  show ?case
    using Cons.IH one
    by (auto simp: Let_def comp_def dest!: scan_keys_fresh)
qed

lemma scan_keys_source:
  "(k, c) \<in> set (scan_keys h ss seen) \<Longrightarrow> \<exists>s \<in> set ss. sms_key h s = k \<and> sms_code s = Some c \<and> c \<noteq> []"
  by (induction ss arbitrary: seen) (auto simp: Let_def code_to_append_def split: if_splits option.splits)

lemma seen_after_poll [simp]:
  "seen_sms_ids (after_poll h w d) = seen_sms_ids w \<union> sms_key h ` set (sms_list_of d)"
  by (simp add: after_poll_def scan_sms_keys Let_def)

lemma seen_after_sleep [simp]: "seen_sms_ids (after_sleep w) = seen_sms_ids w"
  by (simp add: after_sleep_def)

lemma notified_fresh:
  "(k, c) \<in> set (concat (notified h w ps)) \<Longrightarrow> k \<notin> seen_sms_ids w"
proof (induction h w ps rule: notified.induct)
  case (1 h w)
  then show ?case by simp
next
  case (2 h w ps)
  then show ?case by simp
next
  case (3 h w d ps)
  then show ?case
    by (auto simp: Let_def split: if_splits dest: scan_keys_fresh)
next
  case (4 h w ps)
  then show ?case by simp
qed

lemma scan_keys_in_seen:
  "(k, c) \<in> set (scan_keys h ss seen) \<Longrightarrow> k \<in> sms_key h ` set ss"
  using scan_keys_source by fastforce

lemma notified_distinct: "distinct (map fst (concat (notified h w ps)))"
proof (induction h w ps rule: notified.induct)
  case (1 h w)
  show ?case by simp
next
  case (2 h w ps)
  then show ?case by simp
next
  case (3 h w d ps)
  show ?case
  proof (cases "is_terminal d")
    case True
    then show ?thesis by (simp add: Let_def scan_keys_distinct)
  next
    case False
    have disj: "fst ` set (scan_keys h (sms_list_of d) (seen_sms_ids w))
        \<inter> fst ` set (concat (notified h (after_sleep (after_poll h w d)) ps)) = {}"
    proof -
      { fix k c c'
        assume a: "(k, c) \<in> set (scan_keys h (sms_list_of d) (seen_sms_ids w))"
          and b: "(k, c') \<in> set (concat (notified h (after_sleep (after_poll h w d)) ps))"
        from a have "k \<in> sms_key h ` set (sms_list_of d)" by (rule scan_keys_in_seen)
        moreover from b have "k \<notin> seen_sms_ids (after_sleep (after_poll h w d))"
          by (rule notified_fresh)
        ultimately have False by simp }
      then show ?thesis by fastforce
    qed
    from False 3 have ih: "distinct (map fst (concat (notified h (after_sleep (after_poll h w d)) ps)))"
      by simp
    show ?thesis using False ih disj scan_keys_distinct [of h "sms_list_of d" "seen_sms_ids w"]
      by (simp add: Let_def)
  qed
next
  case (4 h w ps)
  show ?case by simp
qed

lemma notifications_eq:
  "notifications h w d =
     (let b = scan_keys h (sms_list_of d) (seen_sms_ids w) in
      (if b \<noteq> [] then [codes_message (map snd b)] else [])
      @ (if Some (py_str (resp_status d)) \<noteq> last_status w
         then [status_message (py_str (resp_status d))] else []))"
  by (simp add: notifications_def scan_sms_keys Let_def codes_message_def status_message_def)

lemma sent_codes:
  "filter is_codes_message (sent (watcher_loop h w ps))
     = map (\<lambda>b. codes_message (map snd b)) (notified h w ps)"
  by (induction h w ps rule: notified.induct) (simp_all add: notifications_eq Let_def)


lemma notified_source:
  "(k, c) \<in> set (concat (notified h w ps))
    \<Longrightarrow> \<exists>s \<in> set (observed_sms ps). sms_key h s = k \<and> sms_code s = Some c \<and> c \<noteq> []"
proof (induction h w ps rule: notified.induct)
  case (1 h w)
  then show ?case by simp
next
  case (2 h w ps)
  then show ?case by simp
next
  case (3 h w d ps)
  then show ?case
    by (auto simp: Let_def split: if_splits dest: scan_keys_source)
next
  case (4 h w ps)
  then show ?case by simp
qed

lemma last_status_after [simp]:
  "last_status (after_sleep (after_poll h w d)) = Some (py_str (resp_status d))"
  by (simp add: after_sleep_def after_poll_def Let_def)






lemma length_watcher_loop:
  "\<forall>p \<in> set ps. \<not> last_poll p \<Longrightarrow> length (watcher_loop h w ps) = length ps"
  by (induction h w ps rule: watcher_loop.induct) (simp_all add: Let_def last_poll_def)

lemma watcher_loop_append:
  "\<forall>p \<in> set pre. \<not> last_poll p
    \<Longrightarrow> watcher_loop h w (pre @ ps) = watcher_loop h w pre @ watcher_loop h (state_after h w pre) ps"
  by (induction h w pre rule: watcher_loop.induct) (simp_all add: Let_def last_poll_def)

lemma stopped_snoc [simp]: "stopped (its @ [Processed msgs None])"
  by (induction its rule: stopped.induct) simp_all

lemma not_stopped_running:
  "\<forall>p \<in> set ps. \<not> terminal_poll p \<Longrightarrow> \<not> stopped (watcher_loop h w ps)"
proof (induction h w ps rule: watcher_loop.induct)
  case (1 h w)
  show ?case by simp
next
  case (2 h w ps)
  then show ?case by (cases "watcher_loop h w ps") simp_all
next
  case (3 h w d ps)
  then show ?case
    by (cases "watcher_loop h (after_sleep (after_poll h w d)) ps") (simp_all add: Let_def)
next
  case (4 h w ps)
  show ?case by simp
qed

lemma terminates_at_terminal:
  assumes "\<exists>p \<in> set ps. terminal_poll p"
    and wf: "\<forall>p \<in> set (takeWhile (\<lambda>p. \<not> terminal_poll p) ps). \<not> malformed_poll p"
  shows "\<exists>d rest. ps = takeWhile (\<lambda>p. \<not> terminal_poll p) ps @ PollOk d # rest
      \<and> is_terminal d
      \<and> watcher_loop h w ps
          = watcher_loop h w (takeWhile (\<lambda>p. \<not> terminal_poll p) ps)
            @ [Processed (notifications h
                 (state_after h w (takeWhile (\<lambda>p. \<not> terminal_poll p) ps)) d) None]
      \<and> length (watcher_loop h w ps) = length (takeWhile (\<lambda>p. \<not> terminal_poll p) ps) + 1
      \<and> stopped (watcher_loop h w ps)"
proof -
  let ?pre = "takeWhile (\<lambda>p. \<not> terminal_poll p) ps"
  from assms(1) have "dropWhile (\<lambda>p. \<not> terminal_poll p) ps \<noteq> []"
    by (auto simp: dropWhile_eq_Nil_conv)
  then obtain p rest where dw: "dropWhile (\<lambda>p. \<not> terminal_poll p) ps = p # rest"
    by (cases "dropWhile (\<lambda>p. \<not> terminal_poll p) ps") auto
  then have tp: "terminal_poll p"
    using hd_dropWhile [of "\<lambda>p. \<not> terminal_poll p" ps] by auto
  then obtain d where p: "p = PollOk d" and d: "is_terminal d"
    by (cases p) auto
  have split: "ps = ?pre @ PollOk d # rest"
    using dw p takeWhile_dropWhile_id [of "\<lambda>p. \<not> terminal_poll p" ps] by simp
  have pre: "\<forall>q \<in> set ?pre. \<not> last_poll q"
    using wf by (auto simp: last_poll_def dest: set_takeWhileD)
  have "watcher_loop h w (?pre @ PollOk d # rest)
      = watcher_loop h w ?pre @ [Processed (notifications h (state_after h w ?pre) d) None]"
    using pre d by (simp add: watcher_loop_append Let_def)
  with split have run: "watcher_loop h w ps
      = watcher_loop h w ?pre @ [Processed (notifications h (state_after h w ?pre) d) None]"
    by simp
  have len: "length (watcher_loop h w ps) = length ?pre + 1"
    using pre by (simp add: run length_watcher_loop)
  have st: "stopped (watcher_loop h w ps)"
    by (simp add: run)
  from split d run len st show ?thesis by blast
qed

lemma backoff_after [simp]: "backoff (after_poll h w d) = backoff w"
  by (simp add: after_poll_def Let_def)

lemma nth_delay_0: "next_delay w = nth_delay (backoff w) 0"
  by (cases "backoff w") (simp_all add: next_delay_def nth_delay_def)

lemma nth_delay_Suc:
  "nth_delay (backoff (after_sleep w)) k = nth_delay (backoff w) (Suc k)"
proof (cases "backoff w")
  case Nil
  then show ?thesis by (simp add: after_sleep_def nth_delay_def)
next
  case (Cons b bs)
  then show ?thesis
    by (cases bs) (simp_all add: after_sleep_def nth_delay_def)
qed

lemma backoff_delays_loop:
  "backoff_delays (watcher_loop h w ps)
     = map (nth_delay (backoff w))
         [0 ..< length (filter successful_poll (takeWhile (\<lambda>p. \<not> last_poll p) ps))]"
proof (induction h w ps rule: watcher_loop.induct)
  case (1 h w)
  show ?case by simp
next
  case (2 h w ps)
  then show ?case by (simp add: last_poll_def)
next
  case (3 h w d ps)
  show ?case
  proof (cases "is_terminal d")
    case True
    then show ?thesis by (simp add: Let_def last_poll_def)
  next
    case False
    let ?n = "length (filter successful_poll (takeWhile (\<lambda>p. \<not> last_poll p) ps))"
    from False have np: "\<not> last_poll (PollOk d)" by (simp add: last_poll_def)
    from False 3 have "backoff_delays (watcher_loop h (after_sleep (after_poll h w d)) ps)
        = map (nth_delay (backoff (after_sleep (after_poll h w d)))) [0 ..< ?n]"
      by simp
    also have "\<dots> = map (\<lambda>k. nth_delay (backoff w) (Suc k)) [0 ..< ?n]"
      using nth_delay_Suc [of "after_poll h w d"] by simp
    finally have ih: "backoff_delays (watcher_loop h (after_sleep (after_poll h w d)) ps)
        = map (\<lambda>k. nth_delay (backoff w) (Suc k)) [0 ..< ?n]" .
    have "map (nth_delay (backoff w)) [0 ..< Suc ?n]
        = nth_delay (backoff w) 0 # map (\<lambda>k. nth_delay (backoff w) (Suc k)) [0 ..< ?n]"
      by (simp only: map_upt_Suc)
    with False np ih show ?thesis
      using nth_delay_0 [of "after_poll h w d"] by (simp add: Let_def del: upt_Suc)
  qed
next
  case (4 h w ps)
  show ?case by (simp add: last_poll_def)
qed


lemma find_append_cases:
  "find P (xs @ ys) = (case find P xs of None \<Rightarrow> find P ys | Some x \<Rightarrow> Some x)"
  by (induction xs) simp_all

lemma scan_keys_first_no_code:
  "find (\<lambda>e. sms_key h e = k) ss = Some s \<Longrightarrow> code_to_append (sms_code s) = []
    \<Longrightarrow> (k, c) \<notin> set (scan_keys h ss seen)"
proof (induction ss arbitrary: seen)
  case Nil
  then show ?case by simp
next
  case (Cons e es)
  show ?case
  proof (cases "sms_key h e = k")
    case True
    with Cons.prems have "e = s" by simp
    with True Cons.prems(2) show ?thesis
      by (auto simp: Let_def dest: scan_keys_fresh)
  next
    case False
    with Cons.prems have "find (\<lambda>e. sms_key h e = k) es = Some s" by simp
    then have "(k, c) \<notin> set (scan_keys h es seen')" for seen'
      using Cons.IH Cons.prems(2) by blast
    with False show ?thesis
      by (auto simp: Let_def)
  qed
qed

lemma notified_first_no_code:
  "find (\<lambda>e. sms_key h e = k) (observed_sms ps) = Some s \<Longrightarrow> code_to_append (sms_code s) = []
    \<Longrightarrow> (k, c) \<notin> set (concat (notified h w ps))"
proof (induction h w ps rule: notified.induct)
  case (1 h w)
  then show ?case by simp
next
  case (2 h w ps)
  then show ?case by simp
next
  case (3 h w d ps)
  let ?P = "\<lambda>e. sms_key h e = k"
  let ?w' = "after_sleep (after_poll h w d)"
  show ?case
  proof (cases "find ?P (sms_list_of d)")
    case (Some s')
    with "3.prems"(1) have s': "s' = s"
      by (simp add: find_append_cases)
    with Some have here: "(k, c) \<notin> set (scan_keys h (sms_list_of d) (seen_sms_ids w))"
      using "3.prems"(2) scan_keys_first_no_code by blast
    from Some have "k \<in> sms_key h ` set (sms_list_of d)"
      by (auto simp: find_Some_iff)
    then have "k \<in> seen_sms_ids ?w'" by simp
    then have "(k, c) \<notin> set (concat (notified h ?w' ps))"
      using notified_fresh by blast
    with here show ?thesis by (auto simp: Let_def)
  next
    case None
    then have "k \<notin> sms_key h ` set (sms_list_of d)"
      by (auto simp: find_None_iff)
    then have here: "(k, c) \<notin> set (scan_keys h (sms_list_of d) (seen_sms_ids w))"
      using scan_keys_in_seen by blast
    show ?thesis
    proof (cases "is_terminal d")
      case True
      with here show ?thesis by (auto simp: Let_def)
    next
      case False
      with None "3.prems"(1) have "find ?P (observed_sms ps) = Some s"
        by (simp add: find_append_cases)
      with False "3.IH" "3.prems"(2) have "(k, c) \<notin> set (concat (notified h ?w' ps))"
        by simp
      with here False show ?thesis by (auto simp: Let_def)
    qed
  qed
next
  case (4 h w ps)
  then show ?case by simp
qed

lemma scan_sms_all_seen:
  "\<forall>s \<in> set ss. sms_key h s \<in> seen \<Longrightarrow> scan_sms h ss seen acc = (seen, acc)"
  by (induction ss arbitrary: seen acc) (simp_all add: Let_def)


lemmas watcher_defs =
  poll_order_updates_def initial_state_def notifications_def after_poll_def next_delay_def
  after_sleep_def is_terminal_def sms_list_of_def sms_key_def code_to_append_def py_str_def
  format_text_def terminal_statuses_def

lemma scenario_log:
  "poll_order_updates h (scenario_polls [sms_1, sms_2]) =
     [Processed [''Order status: PENDING''] (Some 2),
      Processed [''New code(s) received: 123'', ''Order status: RECEIVED''] (Some 4),
      Processed [''New code(s) received: 456''] (Some 8),
      Processed [''Order status: FINISHED''] None]"
  by (simp add: scenario_polls_def sms_1_def sms_2_def watcher_defs)

lemma scenario_notified:
  "notified h initial_state (scenario_polls [sms_1, sms_2]) = [[(1, ''123'')], [(2, ''456'')]]"
  by (simp add: scenario_polls_def sms_1_def sms_2_def watcher_defs)

text \<open>
  C1. Over any run, the code messages sent are exactly one message per non-empty batch of
  newly seen entries, each batch pairs a dedup key (the provider's id, or the hash of
  text and date when the id is absent) with the code notified under it, every pair comes
  from an entry that was read, and no key occurs twice over all batches of the run: each
  distinct id results in at most one notified code.
\<close>

theorem dedup_invariant:
  "filter is_codes_message (sent (poll_order_updates h ps))
     = map (\<lambda>b. codes_message (map snd b)) (notified h initial_state ps)
   \<and> distinct (map fst (concat (notified h initial_state ps)))
   \<and> set (concat (notified h initial_state ps))
       \<subseteq> {(sms_key h s, c) | s c. s \<in> set (observed_sms ps) \<and> sms_code s = Some c}"
proof -
  have "set (concat (notified h initial_state ps))
       \<subseteq> {(sms_key h s, c) | s c. s \<in> set (observed_sms ps) \<and> sms_code s = Some c}"
    using notified_source [of _ _ h initial_state ps] by fastforce
  then show ?thesis
    by (simp add: poll_order_updates_def sent_codes notified_distinct)
qed

theorem dedup_invariant_witness:
  "filter is_codes_message (sent (poll_order_updates example_hash (scenario_polls [sms_1, sms_2])))
     = [''New code(s) received: 123'', ''New code(s) received: 456'']
   \<and> map fst (concat (notified example_hash initial_state (scenario_polls [sms_1, sms_2]))) = [1, 2]
   \<and> distinct (map fst (concat (notified example_hash initial_state (scenario_polls [sms_1, sms_2]))))"
  using dedup_invariant [of example_hash "scenario_polls [sms_1, sms_2]"]
  by (simp add: scenario_notified codes_message_def format_text_def)






text \<open>
  When some poll of the sequence returns a status in FINISHED, CANCELED, TIMEOUT, BANNED
  and no response before the first such poll is malformed, the run is the run over the
  polls before that poll, followed by the iteration that reads it, which ends in
  \<open>break\<close>: the number of polls made is the position of that poll, the loop has
  stopped, and nothing of the polls after it is polled or notified.
\<close>

lemma break_at_first_terminal_status:
  assumes "\<exists>p \<in> set ps. terminal_poll p"
    and "\<forall>p \<in> set (takeWhile (\<lambda>p. \<not> terminal_poll p) ps). \<not> malformed_poll p"
  shows "\<exists>d rest. ps = takeWhile (\<lambda>p. \<not> terminal_poll p) ps @ PollOk d # rest
      \<and> is_terminal d
      \<and> poll_order_updates h ps
          = poll_order_updates h (takeWhile (\<lambda>p. \<not> terminal_poll p) ps)
            @ [Processed (notifications h
                 (state_after h initial_state (takeWhile (\<lambda>p. \<not> terminal_poll p) ps)) d) None]
      \<and> length (poll_order_updates h ps) = length (takeWhile (\<lambda>p. \<not> terminal_poll p) ps) + 1
      \<and> stopped (poll_order_updates h ps)"
  using terminates_at_terminal [OF assms, of h initial_state]
  by (simp add: poll_order_updates_def)

text \<open>
  C3. The claim is that every poll sequence that returns a terminal status makes the loop
  end at the iteration that reads that status. The code does not do this on the sequence
  PENDING, a response that is not a JSON object, FINISHED: the third poll returns a
  terminal status, but line 155 raises on the second response, outside the \<open>try\<close>, so
  the task ends after two polls with one message sent, without reading FINISHED and
  without leaving the loop through \<open>break\<close>.
\<close>

theorem malformed_response_ends_task:
  "terminal_poll (crash_polls ! 2)
   \<and> poll_order_updates h crash_polls = [Processed [''Order status: PENDING''] (Some 2), Crashed]
   \<and> length (poll_order_updates h crash_polls) = 2
   \<and> crashed (poll_order_updates h crash_polls)
   \<and> \<not> stopped (poll_order_updates h crash_polls)
   \<and> sent (poll_order_updates h crash_polls) = [''Order status: PENDING'']"
proof -
  have run: "poll_order_updates h crash_polls
      = [Processed [''Order status: PENDING''] (Some 2), Crashed]"
    by (simp add: crash_polls_def watcher_defs)
  have "terminal_poll (crash_polls ! 2)"
    by (simp add: crash_polls_def is_terminal_def py_str_def terminal_statuses_def)
  then show ?thesis by (simp add: run)
qed


lemma schedule_step: "[2, 4, 8, 15, 30] ! min k 4 \<le> ([2, 4, 8, 15, 30] ! min (Suc k) 4 :: nat)"
proof -
  consider "k = 0" | "k = 1" | "k = 2" | "k = 3" | "k \<ge> 4" by linarith
  then show ?thesis
    by cases (simp_all add: min_def)
qed

lemma schedule_mono:
  "i \<le> j \<Longrightarrow> [2, 4, 8, 15, 30] ! min i 4 \<le> ([2, 4, 8, 15, 30] ! min j 4 :: nat)"
  by (rule lift_Suc_mono_le [of "\<lambda>k. [2, 4, 8, 15, 30] ! min k 4"]) (rule schedule_step)

text \<open>
  C7. Over any run, the delays slept after successful polls that did not end the loop
  (those before the first poll that returns a terminal status or a malformed response)
  are, in order, the entries 2, 4, 8, 15, 30 of the schedule and then 30 again for every
  further sleep; the sequence is non-decreasing.
\<close>

theorem backoff_monotone:
  "backoff_delays (poll_order_updates h ps)
     = map (\<lambda>k. [2, 4, 8, 15, 30] ! min k 4)
         [0 ..< length (filter successful_poll (takeWhile (\<lambda>p. \<not> last_poll p) ps))]
   \<and> sorted (backoff_delays (poll_order_updates h ps))"
proof -
  have a: "backoff_delays (poll_order_updates h ps)
     = map (\<lambda>k. [2, 4, 8, 15, 30] ! min k 4)
         [0 ..< length (filter successful_poll (takeWhile (\<lambda>p. \<not> last_poll p) ps))]"
  proof -
    have four: "Suc (Suc (Suc (Suc 0))) = 4" by simp
    show ?thesis
      unfolding poll_order_updates_def backoff_delays_loop
      by (simp add: initial_state_def nth_delay_def four)
  qed
  have "sorted (map (\<lambda>k. [2, 4, 8, 15, 30] ! min k 4 :: nat) [0 ..< n])" for n
    by (simp add: sorted_iff_nth_mono schedule_mono del: nth_Cons_numeral)
  with a show ?thesis by simp
qed

theorem backoff_monotone_witness:
  "backoff_delays (poll_order_updates example_hash long_run_polls) = [2, 4, 8, 15, 30, 30, 30]"
proof -
  have n: "length (filter successful_poll (takeWhile (\<lambda>p. \<not> last_poll p) long_run_polls)) = 7"
    by (simp add: long_run_polls_def last_poll_def is_terminal_def py_str_def terminal_statuses_def)
  have m: "map (\<lambda>k. [2, 4, 8, 15, 30] ! min k 4) [0 ..< 7] = [2, 4, 8, 15, 30, 30, 30 :: nat]"
    by (simp add: upt_rec)
  have "backoff_delays (poll_order_updates example_hash long_run_polls)
      = map (\<lambda>k. [2, 4, 8, 15, 30] ! min k 4)
          [0 ..< length (filter successful_poll
             (takeWhile (\<lambda>p. \<not> last_poll p) long_run_polls))]"
    using backoff_monotone [of example_hash long_run_polls] by (rule conjunct1)
  then show ?thesis
    by (simp only: n m)
qed

text \<open>
  C9. Every entry of a successful poll has its key in \<open>seen_sms_ids\<close> afterwards,
  whether or not it carries a code; a key that is in \<open>seen_sms_ids\<close> is never
  notified in the rest of the run; so when the first entry read under a key carries no
  code, no code is ever notified under that key, whatever later polls return for it. The
  code messages sent are exactly those built from the notified batches.
\<close>

theorem codeless_entry_marks_id_seen:
  "(s \<in> set (sms_list_of d) \<longrightarrow> sms_key h s \<in> seen_sms_ids (after_poll h w d))
   \<and> (k \<in> seen_sms_ids w \<longrightarrow> (k, c) \<notin> set (concat (notified h w ps)))
   \<and> (find (\<lambda>e. sms_key h e = k) (observed_sms ps) = Some s'
        \<and> code_to_append (sms_code s') = []
       \<longrightarrow> (k, c) \<notin> set (concat (notified h initial_state ps)))
   \<and> filter is_codes_message (sent (poll_order_updates h ps))
       = map (\<lambda>b. codes_message (map snd b)) (notified h initial_state ps)"
  using notified_fresh [of k c h w ps] notified_first_no_code [of h k ps s' c initial_state]
  by (auto simp: poll_order_updates_def sent_codes)

lemma late_code_log:
  "poll_order_updates example_hash late_code_polls =
     [Processed [''Order status: PENDING''] (Some 2),
      Processed [''Order status: RECEIVED''] (Some 4)]"
  by (simp add: late_code_polls_def codeless_7_def coded_7_def watcher_defs)

lemma late_code_first:
  "find (\<lambda>e. sms_key example_hash e = 7) (observed_sms late_code_polls) = Some codeless_7
   \<and> code_to_append (sms_code codeless_7) = []"
  by (simp add: late_code_polls_def codeless_7_def coded_7_def sms_list_of_def sms_key_def
      is_terminal_def py_str_def terminal_statuses_def code_to_append_def)

theorem codeless_entry_marks_id_seen_witness:
  "codeless_7 \<in> set (sms_list_of \<lparr>resp_status = Some ''PENDING'', resp_sms = Some [codeless_7]\<rparr>)
   \<and> 7 \<in> seen_sms_ids (after_poll example_hash initial_state
            \<lparr>resp_status = Some ''PENDING'', resp_sms = Some [codeless_7]\<rparr>)
   \<and> (7, ''999'') \<notin> set (concat (notified example_hash initial_state late_code_polls))
   \<and> sent (poll_order_updates example_hash late_code_polls)
       = [''Order status: PENDING'', ''Order status: RECEIVED'']"
  using codeless_entry_marks_id_seen [of codeless_7
      "\<lparr>resp_status = Some ''PENDING'', resp_sms = Some [codeless_7]\<rparr>" example_hash
      initial_state 7 "''999''" late_code_polls codeless_7]
    late_code_first
  by (simp add: late_code_log) (simp add: sms_list_of_def sms_key_def codeless_7_def)


text \<open>
  C6, as stated, fails: in the scenario's run the message with code 123 is sent before
  the message with status RECEIVED, since line 171 runs before line 175.
\<close>

theorem scenario_claimed_order_counterexample:
  "sent (poll_order_updates example_hash (scenario_polls [sms_1, sms_2]))
     \<noteq> [''Order status: PENDING'', ''Order status: RECEIVED'', ''New code(s) received: 123'',
        ''New code(s) received: 456'', ''Order status: FINISHED'']"
  by (simp add: scenario_log)

text \<open>
  C6, amended. For the scenario's poll sequence, with a last SMS list that holds only
  entries with the ids 1 and 2, the messages sent are, in order, "Order status: PENDING",
  "New code(s) received: 123", "Order status: RECEIVED", "New code(s) received: 456",
  "Order status: FINISHED", and the loop then stops after its fourth poll.
\<close>

theorem scenario_notifications:
  assumes "\<forall>s \<in> set final_sms. sms_id s = Some 1 \<or> sms_id s = Some 2"
  shows "sent (poll_order_updates h (scenario_polls final_sms))
      = [''Order status: PENDING'', ''New code(s) received: 123'', ''Order status: RECEIVED'',
         ''New code(s) received: 456'', ''Order status: FINISHED'']
    \<and> stopped (poll_order_updates h (scenario_polls final_sms))
    \<and> length (poll_order_updates h (scenario_polls final_sms)) = 4"
proof -
  from assms have "\<forall>s \<in> set final_sms. sms_key h s \<in> {1, 2}"
    by (auto simp: sms_key_def)
  then have scan: "scan_sms h final_sms {1, 2} [] = ({1, 2}, [])"
    by (rule scan_sms_all_seen)
  have "poll_order_updates h (scenario_polls final_sms) =
     [Processed [''Order status: PENDING''] (Some 2),
      Processed [''New code(s) received: 123'', ''Order status: RECEIVED''] (Some 4),
      Processed [''New code(s) received: 456''] (Some 8),
      Processed [''Order status: FINISHED''] None]"
    by (simp add: scenario_polls_def sms_1_def sms_2_def watcher_defs insert_commute scan)
  then show ?thesis by simp
qed

theorem scenario_notifications_witness:
  "sent (poll_order_updates example_hash (scenario_polls [sms_2, sms_1, sms_2]))
      = [''Order status: PENDING'', ''New code(s) received: 123'', ''Order status: RECEIVED'',
         ''New code(s) received: 456'', ''Order status: FINISHED'']
   \<and> stopped (poll_order_updates example_hash (scenario_polls [sms_2, sms_1, sms_2]))"
proof -
  have "\<forall>s \<in> set [sms_2, sms_1, sms_2]. sms_id s = Some 1 \<or> sms_id s = Some 2"
    by (simp add: sms_1_def sms_2_def)
  from scenario_notifications [OF this, of example_hash] show ?thesis by simp
qed


section \<open>Properties of the provider client\<close>

lemma client_retries_nat: "client_retries r = nat r"
  by (simp add: client_retries_def max_def)

lemma try_attempt_retried: "retried x \<Longrightarrow> try_attempt True x = Retry (error_of x)"
  by (cases x) (auto simp: try_attempt_def)

lemma request_loop_prefix_retried:
  "\<forall>i \<in> set pre. retried (transport i) \<and> (i < R \<longrightarrow> i < 1024)
    \<Longrightarrow> \<exists>sl. request_loop True R transport (pre @ rest) last_exc slept n =
      request_loop True R transport rest
        (if pre = [] then last_exc else Some (error_of (transport (last pre))))
        sl (n + length pre)"
proof (induction pre arbitrary: last_exc slept n)
  case Nil
  show ?case by (rule exI [of _ slept]) simp
next
  case (Cons a pre)
  then have r: "retried (transport a)" and small: "a < R \<longrightarrow> a < 1024"
    and rest: "\<forall>i \<in> set pre. retried (transport i) \<and> (i < R \<longrightarrow> i < 1024)"
    by simp_all
  from small have "\<exists>d. retry_sleep R a = Some d"
    by (cases "a < R") (simp_all add: retry_sleep_def)
  then obtain d where d: "retry_sleep R a = Some d" ..
  from Cons.IH [OF rest, of "Some (error_of (transport a))" "slept @ d" "Suc n"]
  obtain sl where "request_loop True R transport (pre @ rest)
        (Some (error_of (transport a))) (slept @ d) (Suc n) =
      request_loop True R transport rest
        (if pre = [] then Some (error_of (transport a))
         else Some (error_of (transport (last pre))))
        sl (Suc n + length pre)" ..
  then have "request_loop True R transport ((a # pre) @ rest) last_exc slept n =
      request_loop True R transport rest
        (if a # pre = [] then last_exc else Some (error_of (transport (last (a # pre)))))
        sl (n + length (a # pre))"
    by (simp add: try_attempt_retried [OF r] d)
  then show ?case ..
qed

lemma attempts_split:
  assumes "k \<le> R"
  shows "[0 ..< R + 1] = [0 ..< k] @ k # [Suc k ..< R + 1]"
proof -
  from assms have "[0 ..< R + 1] = [0 ..< k] @ [k ..< R + 1]"
    using upt_add_eq_append [of 0 k "R + 1 - k"] by simp
  moreover from assms have "[k ..< R + 1] = k # [Suc k ..< R + 1]"
    by (simp add: upt_conv_Cons)
  ultimately show ?thesis by simp
qed

lemma request_reaches_attempt:
  assumes "k \<le> nat r" and "k \<le> 1024" and "\<forall>i < k. retried (transport i)"
  shows "\<exists>le sl. request r True transport
      = request_loop True (nat r) transport (k # [Suc k ..< nat r + 1]) le sl k"
proof -
  from assms(2,3) have "\<forall>i \<in> set [0 ..< k]. retried (transport i) \<and> (i < nat r \<longrightarrow> i < 1024)"
    by simp
  from request_loop_prefix_retried [OF this, of "k # [Suc k ..< nat r + 1]" None "[]" 0]
  obtain sl where "request_loop True (nat r) transport ([0 ..< k] @ k # [Suc k ..< nat r + 1])
        None [] 0 =
      request_loop True (nat r) transport (k # [Suc k ..< nat r + 1])
        (if [0 ..< k] = [] then None else Some (error_of (transport (last [0 ..< k]))))
        sl (0 + length [0 ..< k])" ..
  then have "request r True transport
      = request_loop True (nat r) transport (k # [Suc k ..< nat r + 1])
          (if [0 ..< k] = [] then None else Some (error_of (transport (last [0 ..< k])))) sl k"
    unfolding request_def client_retries_nat attempts_split [OF assms(1)] by simp
  then show ?thesis by blast
qed

lemma request_exhausted:
  assumes "r \<le> 1024" and "\<forall>i \<le> nat r. retried (transport i)"
  shows "attempts_made (request r True transport) = nat r + 1
    \<and> outcome (request r True transport) = Inl (error_of (transport (nat r)))"
proof -
  from assms have "\<forall>i \<in> set [0 ..< nat r + 1].
      retried (transport i) \<and> (i < nat r \<longrightarrow> i < 1024)"
    by auto
  from request_loop_prefix_retried [OF this, of "[]" None "[]" 0]
  obtain sl where "request_loop True (nat r) transport ([0 ..< nat r + 1] @ []) None [] 0 =
      request_loop True (nat r) transport []
        (if [0 ..< nat r + 1] = [] then None
         else Some (error_of (transport (last [0 ..< nat r + 1]))))
        sl (0 + length [0 ..< nat r + 1])" ..
  then show ?thesis
    by (simp add: request_def client_retries_nat)
qed

text \<open>
  Beyond 1024 configured retries the loop cannot use them all: when the first 1025
  attempts all fail in a way that is retried, the sleep after attempt 1024 raises
  \<open>OverflowError\<close> and \<open>_request\<close> ends with it after 1025 calls.
\<close>

lemma request_overflows:
  assumes "1025 \<le> r" and "\<forall>i \<le> 1024. retried (transport i)"
  shows "outcome (request r True transport) = Inl OverflowError
    \<and> attempts_made (request r True transport) = 1025"
proof -
  from assms(1) have k: "(1024::nat) \<le> nat r" by simp
  from assms(2) have pre: "\<forall>i < 1024. retried (transport i)" by simp
  from request_reaches_attempt [OF k _ pre]
  obtain le sl where run: "request r True transport
      = request_loop True (nat r) transport (1024 # [Suc 1024 ..< nat r + 1]) le sl 1024"
    by auto
  from assms(2) have "try_attempt True (transport 1024) = Retry (error_of (transport 1024))"
    by (simp add: try_attempt_retried)
  moreover from assms(1) have "retry_sleep (nat r) 1024 = None"
    by (simp add: retry_sleep_def)
  ultimately show ?thesis
    by (simp add: run)
qed

text \<open>
  C4. With \<open>require_ok=True\<close>, as every public method calls it, and a client built with
  \<open>retries = r\<close>: a 429 response and a transport error are both results after which
  the loop retries; the client's limit is \<open>r\<close> itself (0 when \<open>r\<close> is negative), 2 by
  default. For \<open>r\<close> up to 1024: when every attempt gives such a result, exactly
  \<open>r + 1\<close> calls are made and the last error is raised. When the attempts before
  attempt \<open>k\<close> give such results and attempt \<open>k\<close> answers with a status in 400-499
  other than 429, the typed error with that status is raised after \<open>k + 1\<close> calls, so
  a first response of 404 is raised after one call; and when attempt \<open>k\<close> answers below
  400 its body is returned.
\<close>

theorem retry_boundary:
  fixes transport :: "nat \<Rightarrow> ('e, 'b) attempt_result"
  shows "retried (Response 429 body :: ('e, 'b) attempt_result)
   \<and> retried (TransportFailure err :: ('e, 'b) attempt_result)
   \<and> client_retries r = nat r
   \<and> client_retries default_retries = 2
   \<and> (r \<le> 1024 \<and> (\<forall>i \<le> nat r. retried (transport i)) \<longrightarrow>
        attempts_made (request r True transport) = nat r + 1
        \<and> outcome (request r True transport) = Inl (error_of (transport (nat r))))
   \<and> (k \<le> nat r \<and> k \<le> 1024 \<and> (\<forall>i < k. retried (transport i)) \<and> transport k = Response c b
        \<and> 400 \<le> c \<and> c < 500 \<and> c \<noteq> 429 \<longrightarrow>
        attempts_made (request r True transport) = k + 1
        \<and> outcome (request r True transport) = Inl (FiveSimError c b))
   \<and> (k \<le> nat r \<and> k \<le> 1024 \<and> (\<forall>i < k. retried (transport i)) \<and> transport k = Response c b
        \<and> c < 400 \<longrightarrow>
        attempts_made (request r True transport) = k + 1
        \<and> outcome (request r True transport) = Inr b)"
proof -
  have permanent: "attempts_made (request r True transport) = k + 1
        \<and> outcome (request r True transport) = Inl (FiveSimError c b)"
    if "k \<le> nat r" and "k \<le> 1024" and "\<forall>i < k. retried (transport i)"
      and "transport k = Response c b" and "400 \<le> c" and "c < 500" and "c \<noteq> 429"
  proof -
    from request_reaches_attempt [OF that(1-3)]
    obtain le sl where run: "request r True transport
        = request_loop True (nat r) transport (k # [Suc k ..< nat r + 1]) le sl k"
      by auto
    from that(4-7) have "try_attempt True (transport k) = Raise (FiveSimError c b)"
      by (simp add: try_attempt_def)
    then show ?thesis by (simp add: run)
  qed
  have success: "attempts_made (request r True transport) = k + 1
        \<and> outcome (request r True transport) = Inr b"
    if "k \<le> nat r" and "k \<le> 1024" and "\<forall>i < k. retried (transport i)"
      and "transport k = Response c b" and "c < 400"
  proof -
    from request_reaches_attempt [OF that(1-3)]
    obtain le sl where run: "request r True transport
        = request_loop True (nat r) transport (k # [Suc k ..< nat r + 1]) le sl k"
      by auto
    from that(4,5) have "try_attempt True (transport k) = Return b"
      by (simp add: try_attempt_def)
    then show ?thesis by (simp add: run)
  qed
  have d: "client_retries default_retries = 2"
    by (simp add: client_retries_def default_retries_def)
  from request_exhausted [of r transport] permanent success d client_retries_nat [of r]
  show ?thesis by simp
qed

theorem retry_boundary_witness:
  "attempts_made (request default_retries True
      (\<lambda>i. Response 429 ''busy'' :: (unit, string) attempt_result)) = 3
   \<and> outcome (request default_retries True
      (\<lambda>i. Response 429 ''busy'' :: (unit, string) attempt_result))
       = Inl (FiveSimError 429 ''busy'')
   \<and> attempts_made (request default_retries True
      (\<lambda>i. Response 404 ''none'' :: (unit, string) attempt_result)) = 1
   \<and> outcome (request default_retries True
      (\<lambda>i. Response 404 ''none'' :: (unit, string) attempt_result))
       = Inl (FiveSimError 404 ''none'')
   \<and> attempts_made (request 5 True
      (\<lambda>i. Response 429 ''busy'' :: (unit, string) attempt_result)) = 6
   \<and> attempts_made (request (- 3) True
      (\<lambda>i. Response 429 ''busy'' :: (unit, string) attempt_result)) = 1"
proof -
  have two: "default_retries \<le> 1024 \<and> nat default_retries = 2"
    by (simp add: default_retries_def)
  from two
    retry_boundary [where transport = "\<lambda>i. Response 429 ''busy'' :: (unit, string) attempt_result"
      and r = default_retries and k = 0 and c = 404 and b = "''none''"]
    retry_boundary [where transport = "\<lambda>i. Response 404 ''none'' :: (unit, string) attempt_result"
      and r = default_retries and k = 0 and c = 404 and b = "''none''"]
    retry_boundary [where transport = "\<lambda>i. Response 429 ''busy'' :: (unit, string) attempt_result"
      and r = 5 and k = 0 and c = 404 and b = "''none''"]
    retry_boundary [where transport = "\<lambda>i. Response 429 ''busy'' :: (unit, string) attempt_result"
      and r = "- 3" and k = 0 and c = 404 and b = "''none''"]
  show ?thesis by simp
qed


lemma str_int_5: "str_int 5 = ''5''"
  by (simp add: str_int_def str_nat.simps digit_def)

text \<open>
  C5, as stated, fails: \<open>buy_activation\<close> called with operator "beeline" and
  \<open>max_price=5\<close> puts \<open>maxPrice=5\<close> among the query parameters.
\<close>

theorem buy_activation_beeline_counterexample:
  "''maxPrice'' \<in> fst ` set (req_params (buy_activation str_int
      \<lparr>ba_country = Some ''russia'', ba_operator = Some ''beeline'', ba_product = Some ''telegram'',
       ba_forwarding = None, ba_number = None, ba_reuse = None, ba_voice = None,
       ba_ref = None, ba_max_price = Some 5\<rparr>))
   \<and> req_params (buy_activation str_int
      \<lparr>ba_country = Some ''russia'', ba_operator = Some ''beeline'', ba_product = Some ''telegram'',
       ba_forwarding = None, ba_number = None, ba_reuse = None, ba_voice = None,
       ba_ref = None, ba_max_price = Some 5\<rparr>) = [(''maxPrice'', ''5'')]"
  by (simp add: buy_activation_def str_int_5)

lemma buy_activation_maxprice:
  "(''maxPrice'' \<in> fst ` set (req_params (buy_activation str_price a))) = (ba_max_price a \<noteq> None)"
  by (cases "ba_forwarding a"; cases "ba_number a"; cases "ba_reuse a"; cases "ba_voice a";
      cases "ba_ref a"; cases "ba_max_price a")
    (simp_all add: buy_activation_def)

text \<open>
  C5, amended. \<open>buy_activation\<close> sends \<open>maxPrice\<close> exactly when its
  \<open>max_price\<close> argument is not \<open>None\<close>, whatever the operator. The handler
  \<open>buy_maxprice\<close> passes \<open>max_price=None\<close> unless the operator is "any": for any
  other operator its request has no \<open>maxPrice\<close>, and for operator "beeline" and the
  entered price 5 the request has no query parameter at all.
\<close>

theorem maxprice_dropped_by_handler:
  "((''maxPrice'' \<in> fst ` set (req_params (buy_activation str_price a))) = (ba_max_price a \<noteq> None))
   \<and> (operator \<noteq> Some ''any''
        \<and> buy_maxprice parse_float str_price typed product country operator = Buy r
       \<longrightarrow> ''maxPrice'' \<notin> fst ` set (req_params r))
   \<and> (parse_float ''5'' = Some p
       \<longrightarrow> buy_maxprice parse_float str_price ''5'' product country (Some ''beeline'')
           = Buy \<lparr>req_method = ''GET'',
                  req_path = ''/v1/user/buy/activation/'' @ py_str country @ ''/beeline/''
                               @ py_str product,
                  req_params = []\<rparr>)"
proof -
  have handler: "''maxPrice'' \<notin> fst ` set (req_params r)"
    if "operator \<noteq> Some ''any''"
      and "buy_maxprice parse_float str_price typed product country operator = Buy r"
  proof -
    from that have "r = buy_activation str_price
        \<lparr>ba_country = country, ba_operator = operator, ba_product = product,
         ba_forwarding = None, ba_number = None, ba_reuse = None, ba_voice = None,
         ba_ref = None, ba_max_price = None\<rparr>"
      by (simp add: buy_maxprice_def Let_def split: if_splits option.splits)
    then show ?thesis
      by (simp add: buy_activation_maxprice)
  qed
  have beeline: "buy_maxprice parse_float str_price ''5'' product country (Some ''beeline'')
           = Buy \<lparr>req_method = ''GET'',
                  req_path = ''/v1/user/buy/activation/'' @ py_str country @ ''/beeline/''
                               @ py_str product,
                  req_params = []\<rparr>"
    if "parse_float ''5'' = Some p"
    using that by (simp add: buy_maxprice_def Let_def buy_activation_def py_str_def)
  from handler beeline buy_activation_maxprice [of str_price a] show ?thesis by blast
qed

theorem maxprice_dropped_by_handler_witness:
  "buy_maxprice (\<lambda>t. if t = ''5'' then Some (5::int) else None) str_int ''5''
      (Some ''telegram'') (Some ''russia'') (Some ''beeline'')
     = Buy \<lparr>req_method = ''GET'', req_path = ''/v1/user/buy/activation/russia/beeline/telegram'',
            req_params = []\<rparr>
   \<and> ''maxPrice'' \<notin> fst ` set (req_params
        \<lparr>req_method = ''GET'', req_path = ''/v1/user/buy/activation/russia/beeline/telegram'',
         req_params = []\<rparr>)
   \<and> Some ''beeline'' \<noteq> Some ''any''"
  using maxprice_dropped_by_handler [where parse_float = "\<lambda>t. if t = ''5'' then Some (5::int) else None"
      and str_price = str_int and p = 5 and product = "Some ''telegram''"
      and country = "Some ''russia''" and operator = "Some ''beeline''" and typed = "''5''"]
  by (simp add: py_str_def)

section \<open>Properties of the TTL cache\<close>

text \<open>
  C8. \<open>set\<close> stores the value under the key with the expiry \<open>now + ttl\<close> computed at
  the call, replacing what was stored before. \<open>get\<close> after it returns that value when
  the expiry is not below the time of the lookup, and otherwise returns \<open>None\<close> and
  removes the entry. On a missing key \<open>get\<close> returns \<open>None\<close> and leaves the store
  as it is; a lookup never changes another key's entry.
\<close>

theorem ttl_cache_contract:
  fixes t0 t1 t2 ttl ttl' expiry :: "'t::{ord,plus}"
  shows "TTLCache_set t0 st key v ttl = st(key \<mapsto> (t0 + ttl, v))
   \<and> TTLCache_get t1 (TTLCache_set t0 st key v ttl) key
      = (if t0 + ttl < t1 then (None, st(key := None)) else (v, TTLCache_set t0 st key v ttl))
   \<and> TTLCache_set t2 (TTLCache_set t0 st key v ttl) key v' ttl' = TTLCache_set t2 st key v' ttl'
   \<and> (st key = None \<longrightarrow> TTLCache_get t1 st key = (None, st))
   \<and> (st key = Some (expiry, v) \<longrightarrow>
        TTLCache_get t1 st key = (if expiry < t1 then (None, st(key := None)) else (v, st)))
   \<and> (key' \<noteq> key \<longrightarrow> snd (TTLCache_get t1 st key) key' = st key')"
  by (auto simp: TTLCache_get_def TTLCache_set_def split: option.splits)

theorem ttl_cache_contract_witness:
  "fst (TTLCache_get (160::int) (TTLCache_set 100 Map.empty ''k'' (Some ''v'') 60) ''k'') = Some ''v''
   \<and> TTLCache_get (161::int) (TTLCache_set 100 Map.empty ''k'' (Some ''v'') 60) ''k''
       = (None, Map.empty)
   \<and> TTLCache_get (161::int) (Map.empty :: (int, string) ttl_store) ''k'' = (None, Map.empty)
   \<and> snd (TTLCache_get (161::int) [''j'' \<mapsto> (200, Some ''w'')] ''k'') ''j'' = Some (200, Some ''w'')"
  using ttl_cache_contract [where ?t0.0 = "100::int" and ?t1.0 = 160 and st = Map.empty and key = "''k''"
      and v = "Some ''v''" and ttl = 60]
    ttl_cache_contract [where ?t0.0 = "100::int" and ?t1.0 = 161 and st = Map.empty and key = "''k''"
      and v = "Some ''v''" and ttl = 60]
    ttl_cache_contract [where ?t1.0 = "161::int" and st = "[''j'' \<mapsto> (200, Some ''w'')]"
      and key = "''k''" and key' = "''j''" and v = "Some ''v''"]
  by (simp add: TTLCache_get_def)


text \<open>
  C10. After \<open>set(key, None, ttl)\<close>, \<open>get(key)\<close> returns \<open>None\<close> at every time,
  before the expiry too: the same answer as on a store without the key. The cached read
  of \<open>on_prices\<close> therefore makes the fetch again.
\<close>

theorem stored_none_reads_as_miss:
  fixes t0 t1 t2 ttl ttl' :: "'t::{ord,plus}"
  shows "fst (TTLCache_get t1 (TTLCache_set t0 st key None ttl) key) = None
   \<and> fst (TTLCache_get t1 (TTLCache_set t0 st key None ttl) key)
       = fst (TTLCache_get t1 (st(key := None)) key)
   \<and> fetch_issued (on_prices_read t1 t2 ttl' key fetch (TTLCache_set t0 st key None ttl))"
  by (simp add: TTLCache_get_def TTLCache_set_def on_prices_read_def split: sum.splits)

theorem stored_none_reads_as_miss_witness:
  "fst (TTLCache_get (101::int) (TTLCache_set 100 Map.empty ''prices:product:telegram''
          (None :: string option) 60) ''prices:product:telegram'') = None
   \<and> \<not> 100 + 60 < (101::int)
   \<and> fetch_issued (on_prices_read (101::int) 102 60 ''prices:product:telegram''
        (Inr None :: unit + string option)
        (TTLCache_set 100 Map.empty ''prices:product:telegram'' None 60))"
  using stored_none_reads_as_miss [where ?t0.0 = "100::int" and ?t1.0 = 101 and ?t2.0 = 102
      and st = "Map.empty :: (int, string) ttl_store" and key = "''prices:product:telegram''"
      and ttl = 60 and ttl' = 60 and fetch = "Inr None :: unit + string option"]
  by simp

end
